theory Spec2Isabelle
  imports Main "HOL-Library.Word"
begin

section \<open>The Voting contract (contracts/Voting.sol)\<close>

text \<open>
  The contract is embedded as functions on an explicit contract state. A call takes
  the transaction context (\<open>msg.sender\<close>, \<open>block.timestamp\<close>) and the state, and
  returns either the revert reason or the state after the call. A reverted call changes
  nothing, so the state before it is the state after it. Solidity \<open>uint\<close> is
  \<open>uint256\<close>, an \<open>address\<close> has 160 bits; under \<open>pragma solidity ^0.8.0\<close> the
  operators \<open>+\<close>, \<open>*\<close> and \<open>++\<close> revert with \<open>Panic(0x11)\<close> on overflow.
  Events only write the transaction log, which no contract function reads; they are
  left out of the state.
\<close>

type_synonym address = "160 word"
type_synonym uint = "256 word"

record Candidate =
  id_c :: uint
  name :: string
  party :: string
  proposal :: string
  voteCount :: uint

record Voter =
  hasVoted :: bool
  votedCandidateId :: uint
  isRegistered :: bool

record Voting =
  admin :: address
  electionName :: string
  startTime :: uint
  endTime :: uint
  electionStarted :: bool
  electionEnded :: bool
  candidates :: "Candidate list"
  voters :: "address \<Rightarrow> Voter"
  totalVotes :: uint

record msg =
  msg_sender :: address
  block_timestamp :: uint

text \<open>\<open>Error\<close> carries the string of a failed \<open>require\<close>, \<open>Panic\<close> the code of a
  failed built-in check (\<open>0x11 = 17\<close>: arithmetic overflow).\<close>

datatype revert = Error string | Panic nat

text \<open>A storage slot that was never written reads as zero.\<close>

definition zero_Voter :: Voter where
  "zero_Voter = \<lparr>hasVoted = False, votedCandidateId = 0, isRegistered = False\<rparr>"

definition checked_add :: "uint \<Rightarrow> uint \<Rightarrow> revert + uint" where
  "checked_add a b = (if unat a + unat b < 2 ^ 256 then Inr (a + b) else Inl (Panic 17))"

definition checked_mul :: "uint \<Rightarrow> uint \<Rightarrow> revert + uint" where
  "checked_mul a b = (if unat a * unat b < 2 ^ 256 then Inr (a * b) else Inl (Panic 17))"

definition onlyAdmin :: "msg \<Rightarrow> Voting \<Rightarrow> (revert + 'a) \<Rightarrow> revert + 'a" where
  "onlyAdmin m s body =
     (if msg_sender m = admin s then body
      else Inl (Error ''Only admin can perform this action''))"

definition electionActive :: "msg \<Rightarrow> Voting \<Rightarrow> (revert + 'a) \<Rightarrow> revert + 'a" where
  "electionActive m s body =
     (if \<not> electionStarted s then Inl (Error ''Election has not started yet'')
      else if electionEnded s then Inl (Error ''Election has already ended'')
      else if \<not> (startTime s \<le> block_timestamp m \<and> block_timestamp m \<le> endTime s)
        then Inl (Error ''Election is not active'')
      else body)"

definition constructor :: "msg \<Rightarrow> string \<Rightarrow> Voting" where
  "constructor m electionName' =
     \<lparr>admin = msg_sender m, electionName = electionName', startTime = 0, endTime = 0,
      electionStarted = False, electionEnded = False, candidates = [],
      voters = (\<lambda>_. zero_Voter), totalVotes = 0\<rparr>"

definition addCandidate :: "msg \<Rightarrow> string \<Rightarrow> string \<Rightarrow> string \<Rightarrow> Voting \<Rightarrow> revert + Voting" where
  "addCandidate m name' party' proposal' s =
     onlyAdmin m s
       (if electionStarted s
        then Inl (Error ''Cannot add candidate after election has started'')
        else
          let candidateId = of_nat (length (candidates s))
          in Inr (s\<lparr>candidates := candidates s @
                   [\<lparr>id_c = candidateId, name = name', party = party',
                     proposal = proposal', voteCount = 0\<rparr>]\<rparr>))"

definition registerVoter :: "msg \<Rightarrow> address \<Rightarrow> Voting \<Rightarrow> revert + Voting" where
  "registerVoter m voter s =
     onlyAdmin m s
       (if isRegistered (voters s voter) then Inl (Error ''Voter is already registered'')
        else Inr (s\<lparr>voters := (voters s)
                     (voter := (voters s voter)\<lparr>isRegistered := True, hasVoted := False\<rparr>)\<rparr>))"

definition startElection :: "msg \<Rightarrow> uint \<Rightarrow> Voting \<Rightarrow> revert + Voting" where
  "startElection m durationInMinutes s =
     onlyAdmin m s
       (if electionStarted s then Inl (Error ''Election has already started'')
        else if \<not> (length (candidates s) > 0) then Inl (Error ''No candidates registered'')
        else
          (case checked_mul durationInMinutes 60 of
             Inl e \<Rightarrow> Inl e
           | Inr secs \<Rightarrow>
               (case checked_add (block_timestamp m) secs of
                  Inl e \<Rightarrow> Inl e
                | Inr end' \<Rightarrow>
                    Inr (s\<lparr>electionStarted := True, startTime := block_timestamp m,
                           endTime := end'\<rparr>))))"

definition vote :: "msg \<Rightarrow> uint \<Rightarrow> Voting \<Rightarrow> revert + Voting" where
  "vote m candidateId s =
     electionActive m s
       (let sender = voters s (msg_sender m) in
        if \<not> isRegistered sender then Inl (Error ''You are not registered to vote'')
        else if hasVoted sender then Inl (Error ''You have already voted'')
        else if \<not> (unat candidateId < length (candidates s)) then Inl (Error ''Invalid candidate'')
        else
          let sender' = sender\<lparr>hasVoted := True, votedCandidateId := candidateId\<rparr>;
              c = candidates s ! unat candidateId
          in (case checked_add (voteCount c) 1 of
                Inl e \<Rightarrow> Inl e
              | Inr vc \<Rightarrow>
                  (case checked_add (totalVotes s) 1 of
                     Inl e \<Rightarrow> Inl e
                   | Inr tv \<Rightarrow>
                       Inr (s\<lparr>voters := (voters s)(msg_sender m := sender'),
                              candidates := (candidates s)[unat candidateId := c\<lparr>voteCount := vc\<rparr>],
                              totalVotes := tv\<rparr>))))"

definition endElection :: "msg \<Rightarrow> Voting \<Rightarrow> revert + Voting" where
  "endElection m s =
     onlyAdmin m s (electionActive m s (Inr (s\<lparr>electionEnded := True\<rparr>)))"

definition getCandidate :: "uint \<Rightarrow> Voting \<Rightarrow> revert + (uint \<times> string \<times> string \<times> string \<times> uint)" where
  "getCandidate candidateId s =
     (if \<not> (unat candidateId < length (candidates s)) then Inl (Error ''Invalid candidate ID'')
      else
        let candidate = candidates s ! unat candidateId
        in Inr (id_c candidate, name candidate, party candidate, proposal candidate,
                voteCount candidate))"

definition getCandidateCount :: "Voting \<Rightarrow> uint" where
  "getCandidateCount s = of_nat (length (candidates s))"

text \<open>The loop of \<open>getResults\<close> fills three arrays of length \<open>candidates.length\<close>,
  allocated zeroed, index by index.\<close>

function getResults_loop ::
  "Candidate list \<Rightarrow> nat \<Rightarrow> uint list \<times> string list \<times> uint list
     \<Rightarrow> uint list \<times> string list \<times> uint list" where
  "getResults_loop cs i (ids, names, voteCounts) =
     (if i < length cs
      then getResults_loop cs (Suc i)
             (ids[i := id_c (cs ! i)], names[i := name (cs ! i)],
              voteCounts[i := voteCount (cs ! i)])
      else (ids, names, voteCounts))"
  by pat_completeness auto
termination
  by (relation "measure (\<lambda>(cs, i, _). length cs - i)") auto

declare getResults_loop.simps [simp del]

definition getResults :: "Voting \<Rightarrow> revert + (uint list \<times> string list \<times> uint list)" where
  "getResults s =
     (if \<not> electionEnded s then Inl (Error ''Election has not ended yet'')
      else
        let n = length (candidates s)
        in Inr (getResults_loop (candidates s) 0
                  (replicate n 0, replicate n [], replicate n 0)))"

definition hasVoted_of :: "address \<Rightarrow> Voting \<Rightarrow> bool" where
  "hasVoted_of voter s = hasVoted (voters s voter)"

definition getElectionStatus :: "msg \<Rightarrow> Voting \<Rightarrow> bool \<times> bool \<times> uint \<times> uint \<times> uint" where
  "getElectionStatus m s =
     (electionStarted s, electionEnded s, startTime s, endTime s, block_timestamp m)"

subsection \<open>Transactions and reachable states\<close>

datatype operation =
    AddCandidate string string string
  | RegisterVoter address
  | StartElection uint
  | CastVote uint
  | EndElection

fun exec :: "msg \<Rightarrow> operation \<Rightarrow> Voting \<Rightarrow> revert + Voting" where
  "exec m (AddCandidate n p q) s = addCandidate m n p q s"
| "exec m (RegisterVoter a) s = registerVoter m a s"
| "exec m (StartElection d) s = startElection m d s"
| "exec m (CastVote c) s = vote m c s"
| "exec m EndElection s = endElection m s"

text \<open>A transaction that reverts leaves the contract state as it was.\<close>

definition apply_tx :: "msg \<times> operation \<Rightarrow> Voting \<Rightarrow> Voting" where
  "apply_tx tx s = (case exec (fst tx) (snd tx) s of Inl _ \<Rightarrow> s | Inr s' \<Rightarrow> s')"

fun run :: "(msg \<times> operation) list \<Rightarrow> Voting \<Rightarrow> Voting" where
  "run [] s = s"
| "run (tx # txs) s = run txs (apply_tx tx s)"

text \<open>The states of the contract after deployment and any number of transactions,
  sent by anyone at any block time.\<close>

inductive reachable :: "Voting \<Rightarrow> bool" where
  init: "reachable (constructor m n)"
| step: "reachable s \<Longrightarrow> exec m op s = Inr s' \<Longrightarrow> reachable s'"

text \<open>The phase of the specification, read off the two flags of the contract.\<close>

datatype phase = Created | Active | Ended

definition phase_of :: "Voting \<Rightarrow> phase" where
  "phase_of s = (if electionEnded s then Ended else if electionStarted s then Active else Created)"

subsection \<open>Observations used by the specification\<close>

text \<open>The sum of the candidates' vote counts and the set of accounts that have voted,
  both as mathematical quantities (no wrap-around).\<close>

definition tally :: "Candidate list \<Rightarrow> nat" where
  "tally cs = sum_list (map (\<lambda>c. unat (voteCount c)) cs)"

definition voted :: "Voting \<Rightarrow> address set" where
  "voted s = {a. hasVoted (voters s a)}"

text \<open>The states a sequence of transactions passes through, and the number of times a
  flag goes from false to true along a sequence of observations.\<close>

fun trace :: "(msg \<times> operation) list \<Rightarrow> Voting \<Rightarrow> Voting list" where
  "trace [] s = [s]"
| "trace (tx # txs) s = s # trace txs (apply_tx tx s)"

fun rises :: "bool list \<Rightarrow> nat" where
  "rises (a # b # bs) = (if \<not> a \<and> b then 1 else 0) + rises (b # bs)"
| "rises _ = 0"

section \<open>The HTTP handlers that guard the contract (the API server)\<close>

text \<open>
  A handler takes the request, the configuration read from the environment and the
  contract state on the ledger, and returns the response with the contract state
  after it. The ledger is taken as ideal: a read returns the current state, and
  \<open>sendTransaction\<close> runs the contract method as the given account in a block with
  the given time, throwing when the call reverts (gas estimation already fails then).
  Failures of the network, of fees and of nonces are outside this model. The
  administrator's wallet is (\<open>ADMIN_ADDRESS\<close>, its private key).
\<close>

record config =
  ADMIN_API_KEY :: "string option"
  ADMIN_ADDRESS :: address

text \<open>
  Response bodies: \<open>{error: text}\<close>; \<open>{error: error.message}\<close> for a thrown
  revert or for a value the ABI encoder refuses; \<open>{errors: [...]}\<close> from the request
  validators (their messages, in order); \<open>{message: text, transactionHash}\<close>; and the
  voter status \<open>{address, isRegistered, hasVoted, votedFor}\<close>, where \<open>votedFor\<close> is
  \<open>null\<close> or the JavaScript number made of the stored candidate id, kept here as
  the stored id.
\<close>

datatype body =
    ErrorBody string
  | RevertBody revert
  | EncodingErrorBody
  | ValidationErrors "string list"
  | MessageBody string
  | VoterStatusBody address bool bool "uint option"

type_synonym response = "nat \<times> body"

definition adminAuth :: "config \<Rightarrow> string option \<Rightarrow> response option" where
  "adminAuth cfg apiKey =
     (if apiKey = None \<or> apiKey = Some [] \<or> apiKey \<noteq> ADMIN_API_KEY cfg
      then Some (401, ErrorBody ''Unauthorized: Admin access required'')
      else None)"

definition sendTransaction ::
  "(msg \<Rightarrow> Voting \<Rightarrow> revert + Voting) \<Rightarrow> address \<Rightarrow> uint \<Rightarrow> Voting \<Rightarrow> revert + Voting" where
  "sendTransaction method account now s =
     method \<lparr>msg_sender = account, block_timestamp = now\<rparr> s"

text \<open>\<open>POST /api/candidates\<close>: the three \<open>notEmpty()\<close> validators, then the
  transaction. A missing field fails \<open>notEmpty()\<close> like the empty string does.\<close>

definition post_candidates ::
  "config \<Rightarrow> string option \<Rightarrow> string \<Rightarrow> string \<Rightarrow> string \<Rightarrow> uint \<Rightarrow> Voting
     \<Rightarrow> response \<times> Voting" where
  "post_candidates cfg apiKey name' party' proposal' now s =
     (case adminAuth cfg apiKey of
        Some r \<Rightarrow> (r, s)
      | None \<Rightarrow>
          let errors =
                (if name' = [] then [''Candidate name is required''] else []) @
                (if party' = [] then [''Party name is required''] else []) @
                (if proposal' = [] then [''Proposal is required''] else [])
          in if errors \<noteq> [] then ((400, ValidationErrors errors), s)
             else
               (case sendTransaction (\<lambda>m. addCandidate m name' party' proposal')
                       (ADMIN_ADDRESS cfg) now s of
                  Inl e \<Rightarrow> ((500, RevertBody e), s)
                | Inr s' \<Rightarrow> ((201, MessageBody ''Candidate added successfully''), s')))"

text \<open>\<open>POST /api/election/start\<close>: \<open>isInt({min: 1})\<close> on an integral
  \<open>durationInMinutes\<close>, then the transaction; a value that does not fit \<open>uint256\<close>
  is refused by the ABI encoder inside the \<open>try\<close> block.\<close>

definition post_election_start ::
  "config \<Rightarrow> string option \<Rightarrow> int \<Rightarrow> uint \<Rightarrow> Voting \<Rightarrow> response \<times> Voting" where
  "post_election_start cfg apiKey durationInMinutes now s =
     (case adminAuth cfg apiKey of
        Some r \<Rightarrow> (r, s)
      | None \<Rightarrow>
          if \<not> (1 \<le> durationInMinutes)
          then ((400, ValidationErrors [''Duration must be a positive integer'']), s)
          else if \<not> (durationInMinutes < 2 ^ 256) then ((500, EncodingErrorBody), s)
          else
            (case sendTransaction (\<lambda>m. startElection m (word_of_int durationInMinutes))
                    (ADMIN_ADDRESS cfg) now s of
               Inl e \<Rightarrow> ((500, RevertBody e), s)
             | Inr s' \<Rightarrow> ((200, MessageBody ''Election started successfully''), s')))"

text \<open>\<open>GET /api/voters/:address/status\<close>: the path parameter is \<open>None\<close> when
  \<open>web3.utils.isAddress\<close> rejects it, and the account it denotes otherwise.\<close>

definition get_voter_status :: "address option \<Rightarrow> Voting \<Rightarrow> response" where
  "get_voter_status address s =
     (case address of
        None \<Rightarrow> (400, ErrorBody ''Invalid Ethereum address'')
      | Some a \<Rightarrow>
          let hasVoted' = hasVoted_of a s;
              voter = voters s a
          in (200, VoterStatusBody a (isRegistered voter) hasVoted'
                     (if hasVoted' then Some (votedCandidateId voter) else None)))"

section \<open>A sample election\<close>

text \<open>The administrator (account 1) adds candidates A and B and registers account 2;
  the election is started for 60 minutes at time 1000; account 2 votes for A at time
  1010; the administrator ends the election at time 1020.\<close>

definition demo_admin :: msg where
  "demo_admin = \<lparr>msg_sender = 1, block_timestamp = 1000\<rparr>"

definition demo_voter :: msg where
  "demo_voter = \<lparr>msg_sender = 2, block_timestamp = 1010\<rparr>"

definition demo_new :: Voting where
  "demo_new = constructor demo_admin ''Demo''"

definition demo_created :: Voting where
  "demo_created =
     run [(demo_admin, AddCandidate ''A'' ''PA'' ''pa''),
          (demo_admin, AddCandidate ''B'' ''PB'' ''pb''),
          (demo_admin, RegisterVoter 2)] demo_new"

definition demo_active :: Voting where
  "demo_active = run [(demo_admin, StartElection 60), (demo_voter, CastVote 0)] demo_created"

definition demo_ended :: Voting where
  "demo_ended = run [(demo_admin\<lparr>block_timestamp := 1020\<rparr>, EndElection)] demo_active"

text \<open>A configuration of the API server for this election.\<close>

definition demo_config :: config where
  "demo_config = \<lparr>ADMIN_API_KEY = Some ''secret'', ADMIN_ADDRESS = 1\<rparr>"

section \<open>Auxiliary facts\<close>

lemma registerVoter_cases:
  "registerVoter m a s =
     (if msg_sender m \<noteq> admin s then Inl (Error ''Only admin can perform this action'')
      else if isRegistered (voters s a) then Inl (Error ''Voter is already registered'')
      else Inr (s\<lparr>voters := (voters s)
                   (a := (voters s a)\<lparr>isRegistered := True, hasVoted := False\<rparr>)\<rparr>))"
  by (simp add: registerVoter_def onlyAdmin_def)

subsection \<open>What a successful call has checked and done\<close>

lemma checked_add_Inr: "checked_add a b = Inr c \<Longrightarrow> unat c = unat a + unat b \<and> c = a + b"
  by (auto simp: checked_add_def unat_word_ariths split: if_splits)

lemma vote_Inr:
  assumes "vote m c s = Inr s'"
  shows "electionStarted s" "\<not> electionEnded s"
    "startTime s \<le> block_timestamp m" "block_timestamp m \<le> endTime s"
    "isRegistered (voters s (msg_sender m))" "\<not> hasVoted (voters s (msg_sender m))"
    "unat c < length (candidates s)"
    "unat (voteCount (candidates s ! unat c) + 1) = unat (voteCount (candidates s ! unat c)) + 1"
    "unat (totalVotes s + 1) = unat (totalVotes s) + 1"
    "s' = s\<lparr>voters := (voters s)(msg_sender m :=
                 (voters s (msg_sender m))\<lparr>hasVoted := True, votedCandidateId := c\<rparr>),
             candidates := (candidates s)[unat c :=
                 (candidates s ! unat c)\<lparr>voteCount := voteCount (candidates s ! unat c) + 1\<rparr>],
             totalVotes := totalVotes s + 1\<rparr>"
  using assms
  by (auto simp: vote_def electionActive_def Let_def split: if_splits sum.splits dest!: checked_add_Inr)

lemma addCandidate_Inr:
  "addCandidate m n p q s = Inr s' \<Longrightarrow>
     msg_sender m = admin s \<and> \<not> electionStarted s \<and>
     s' = s\<lparr>candidates := candidates s @
            [\<lparr>id_c = of_nat (length (candidates s)), name = n, party = p, proposal = q, voteCount = 0\<rparr>]\<rparr>"
  by (auto simp: addCandidate_def onlyAdmin_def Let_def split: if_splits)

lemma registerVoter_Inr:
  "registerVoter m a s = Inr s' \<Longrightarrow>
     msg_sender m = admin s \<and> \<not> isRegistered (voters s a) \<and>
     s' = s\<lparr>voters := (voters s)(a := (voters s a)\<lparr>isRegistered := True, hasVoted := False\<rparr>)\<rparr>"
  by (auto simp: registerVoter_def onlyAdmin_def split: if_splits)

lemma startElection_Inr:
  "startElection m d s = Inr s' \<Longrightarrow>
     msg_sender m = admin s \<and> \<not> electionStarted s \<and> candidates s \<noteq> [] \<and>
     (\<exists>e. s' = s\<lparr>electionStarted := True, startTime := block_timestamp m, endTime := e\<rparr>)"
  by (auto simp: startElection_def onlyAdmin_def split: if_splits sum.splits)

lemma endElection_Inr:
  "endElection m s = Inr s' \<Longrightarrow>
     msg_sender m = admin s \<and> electionStarted s \<and> \<not> electionEnded s \<and>
     startTime s \<le> block_timestamp m \<and> block_timestamp m \<le> endTime s \<and>
     s' = s\<lparr>electionEnded := True\<rparr>"
  by (auto simp: endElection_def onlyAdmin_def electionActive_def split: if_splits)

subsection \<open>Invariants of the reachable states\<close>

lemma voted_registered:
  "reachable s \<Longrightarrow> hasVoted (voters s a) \<Longrightarrow> isRegistered (voters s a)"
proof (induction arbitrary: a rule: reachable.induct)
  case (init m n)
  then show ?case by (simp add: constructor_def zero_Voter_def)
next
  case (step s m op s')
  show ?case
  proof (cases op)
    case (AddCandidate n p q)
    with step show ?thesis by (auto dest!: addCandidate_Inr)
  next
    case (RegisterVoter b)
    with step show ?thesis by (auto dest!: registerVoter_Inr split: if_splits)
  next
    case (StartElection d)
    with step show ?thesis by (auto dest!: startElection_Inr)
  next
    case (CastVote c)
    with step.hyps(2) have v: "vote m c s = Inr s'" by simp
    show ?thesis
      using step.prems step.IH vote_Inr(5) [OF v] vote_Inr(10) [OF v]
      by (auto split: if_splits)
  next
    case EndElection
    with step show ?thesis by (auto dest!: endElection_Inr)
  qed
qed

lemma ended_started: "reachable s \<Longrightarrow> electionEnded s \<Longrightarrow> electionStarted s"
proof (induction rule: reachable.induct)
  case (init m n)
  then show ?case by (simp add: constructor_def)
next
  case (step s m op s')
  then show ?case
    by (cases op)
       (auto dest!: addCandidate_Inr registerVoter_Inr startElection_Inr endElection_Inr
             dest: vote_Inr(1) vote_Inr(10))
qed

lemma tally_append: "tally (cs @ [c]) = tally cs + unat (voteCount c)"
  by (simp add: tally_def)

lemma tally_update:
  assumes "i < length cs" "unat (voteCount c') = unat (voteCount (cs ! i)) + 1"
  shows "tally (cs[i := c']) = tally cs + 1"
  using assms
proof (induction cs arbitrary: i)
  case Nil
  then show ?case by simp
next
  case (Cons c cs)
  then show ?case by (cases i) (simp_all add: tally_def)
qed

lemma tally_ok: "reachable s \<Longrightarrow> unat (totalVotes s) = tally (candidates s)"
proof (induction rule: reachable.induct)
  case (init m n)
  then show ?case by (simp add: constructor_def tally_def)
next
  case (step s m op s')
  show ?case
  proof (cases op)
    case (CastVote c)
    with step.hyps(2) have v: "vote m c s = Inr s'" by simp
    show ?thesis
      using step.IH vote_Inr(7-10) [OF v] by (simp add: tally_update)
  qed (use step in \<open>auto dest!: addCandidate_Inr registerVoter_Inr startElection_Inr
         endElection_Inr simp: tally_append\<close>)
qed

lemma voted_ok: "reachable s \<Longrightarrow> unat (totalVotes s) = card (voted s)"
proof (induction rule: reachable.induct)
  case (init m n)
  then show ?case by (simp add: constructor_def voted_def zero_Voter_def)
next
  case (step s m op s')
  show ?case
  proof (cases op)
    case (AddCandidate n p q)
    with step show ?thesis by (auto dest!: addCandidate_Inr simp: voted_def)
  next
    case (RegisterVoter b)
    with step.hyps(2) have r: "registerVoter m b s = Inr s'" by simp
    from registerVoter_Inr [OF r] voted_registered [OF step.hyps(1), of b]
    have "voted s' = voted s" by (auto simp: voted_def)
    with step.IH registerVoter_Inr [OF r] show ?thesis by auto
  next
    case (StartElection d)
    with step show ?thesis by (auto dest!: startElection_Inr simp: voted_def)
  next
    case (CastVote c)
    with step.hyps(2) have v: "vote m c s = Inr s'" by simp
    have "voted s' = insert (msg_sender m) (voted s)"
      using vote_Inr(10) [OF v] by (auto simp: voted_def)
    moreover have "msg_sender m \<notin> voted s"
      using vote_Inr(6) [OF v] by (simp add: voted_def)
    ultimately have "card (voted s') = card (voted s) + 1" by simp
    with step.IH vote_Inr(9,10) [OF v] show ?thesis by simp
  next
    case EndElection
    with step show ?thesis by (auto dest!: endElection_Inr simp: voted_def)
  qed
qed

subsection \<open>The loop of getResults\<close>

lemma getResults_loop_eq:
  "i \<le> length cs \<Longrightarrow> length ids = length cs \<Longrightarrow> length names = length cs \<Longrightarrow>
   length vcs = length cs \<Longrightarrow>
   getResults_loop cs i (ids, names, vcs) =
     (take i ids @ drop i (map id_c cs), take i names @ drop i (map name cs),
      take i vcs @ drop i (map voteCount cs))"
proof (induction cs i "(ids, names, vcs)" arbitrary: ids names vcs rule: getResults_loop.induct)
  case (1 cs i ids names voteCounts)
  show ?case
  proof (cases "i < length cs")
    case True
    have upd: "take (Suc i) (xs[i := f (cs ! i)]) @ drop (Suc i) (map f cs)
                 = take i xs @ drop i (map f cs)"
      if "length xs = length cs" for xs :: "'b list" and f
      using True that
      by (simp add: take_Suc_conv_app_nth Cons_nth_drop_Suc [symmetric])
    from True "1.prems" have
      "getResults_loop cs (Suc i)
         (ids[i := id_c (cs ! i)], names[i := name (cs ! i)], voteCounts[i := voteCount (cs ! i)])
       = (take (Suc i) (ids[i := id_c (cs ! i)]) @ drop (Suc i) (map id_c cs),
          take (Suc i) (names[i := name (cs ! i)]) @ drop (Suc i) (map name cs),
          take (Suc i) (voteCounts[i := voteCount (cs ! i)]) @ drop (Suc i) (map voteCount cs))"
      by (intro "1.hyps") simp_all
    with True "1.prems" show ?thesis
      by (simp add: upd getResults_loop.simps [of cs i])
  next
    case False
    with "1.prems" show ?thesis
      by (subst getResults_loop.simps) simp
  qed
qed

lemma getResults_eq:
  "getResults s =
     (if electionEnded s
      then Inr (map id_c (candidates s), map name (candidates s), map voteCount (candidates s))
      else Inl (Error ''Election has not ended yet''))"
  by (simp add: getResults_def Let_def getResults_loop_eq)

subsection \<open>The sample election, evaluated\<close>

lemmas demo_defs = demo_admin_def demo_voter_def demo_new_def apply_tx_def constructor_def
  zero_Voter_def addCandidate_def registerVoter_def startElection_def vote_def endElection_def
  onlyAdmin_def electionActive_def checked_add_def checked_mul_def Let_def

lemma demo_created_eq:
  "demo_created =
     \<lparr>admin = 1, electionName = ''Demo'', startTime = 0, endTime = 0,
      electionStarted = False, electionEnded = False,
      candidates = [\<lparr>id_c = 0, name = ''A'', party = ''PA'', proposal = ''pa'', voteCount = 0\<rparr>,
                    \<lparr>id_c = 1, name = ''B'', party = ''PB'', proposal = ''pb'', voteCount = 0\<rparr>],
      voters = (\<lambda>_. zero_Voter)
                 (2 := \<lparr>hasVoted = False, votedCandidateId = 0, isRegistered = True\<rparr>),
      totalVotes = 0\<rparr>"
  by (simp add: demo_created_def demo_defs)

lemma demo_active_eq:
  "demo_active =
     \<lparr>admin = 1, electionName = ''Demo'', startTime = 1000, endTime = 4600,
      electionStarted = True, electionEnded = False,
      candidates = [\<lparr>id_c = 0, name = ''A'', party = ''PA'', proposal = ''pa'', voteCount = 1\<rparr>,
                    \<lparr>id_c = 1, name = ''B'', party = ''PB'', proposal = ''pb'', voteCount = 0\<rparr>],
      voters = (\<lambda>_. zero_Voter)
                 (2 := \<lparr>hasVoted = True, votedCandidateId = 0, isRegistered = True\<rparr>),
      totalVotes = 1\<rparr>"
  by (simp add: demo_active_def demo_created_eq demo_defs)

lemma demo_ended_eq: "demo_ended = demo_active\<lparr>electionEnded := True\<rparr>"
  by (simp add: demo_ended_def demo_active_eq demo_defs)

lemma reachable_apply_tx: "reachable s \<Longrightarrow> reachable (apply_tx tx s)"
  by (cases tx) (auto simp: apply_tx_def split: sum.splits intro: reachable.step)

lemma reachable_run: "reachable s \<Longrightarrow> reachable (run txs s)"
  by (induction txs arbitrary: s) (simp_all add: reachable_apply_tx)

text \<open>The reachable states are the states after deployment and a sequence of
  transactions, reverted ones included.\<close>

lemma run_append: "run (txs @ txs') s = run txs' (run txs s)"
  by (induction txs arbitrary: s) simp_all

lemma reachable_is_run: "reachable s \<Longrightarrow> \<exists>m n txs. s = run txs (constructor m n)"
proof (induction rule: reachable.induct)
  case (init m n)
  have "constructor m n = run [] (constructor m n)" by simp
  then show ?case by blast
next
  case (step s m op s')
  then obtain m0 n txs where s: "s = run txs (constructor m0 n)" by blast
  from step.hyps(2) have "s' = apply_tx (m, op) s" by (simp add: apply_tx_def)
  with s have "s' = run (txs @ [(m, op)]) (constructor m0 n)" by (simp add: run_append)
  then show ?case by blast
qed

lemma reachable_iff_run: "reachable s \<longleftrightarrow> (\<exists>m n txs. s = run txs (constructor m n))"
  using reachable_is_run reachable_run [OF reachable.init] by blast

lemma reachable_demo_new: "reachable demo_new"
  by (simp add: demo_new_def reachable.init)

lemma reachable_demo_created: "reachable demo_created"
  unfolding demo_created_def by (rule reachable_run [OF reachable_demo_new])

lemma reachable_demo_active: "reachable demo_active"
  unfolding demo_active_def by (rule reachable_run [OF reachable_demo_created])

lemma reachable_demo_ended: "reachable demo_ended"
  unfolding demo_ended_def by (rule reachable_run [OF reachable_demo_active])

subsection \<open>Votes are never taken back\<close>

lemma hasVoted_exec:
  assumes "reachable s" "hasVoted (voters s v)" "exec m op s = Inr s'"
  shows "hasVoted (voters s' v)"
proof (cases op)
  case (AddCandidate n p q)
  with assms show ?thesis by (auto dest!: addCandidate_Inr)
next
  case (RegisterVoter b)
  with assms(3) have r: "registerVoter m b s = Inr s'" by simp
  from voted_registered [OF assms(1,2)] registerVoter_Inr [OF r] have "b \<noteq> v" by auto
  with registerVoter_Inr [OF r] assms(2) show ?thesis by auto
next
  case (StartElection d)
  with assms show ?thesis by (auto dest!: startElection_Inr)
next
  case (CastVote c)
  with assms(3) have v: "vote m c s = Inr s'" by simp
  from vote_Inr(10) [OF v] assms(2) show ?thesis by auto
next
  case EndElection
  with assms show ?thesis by (auto dest!: endElection_Inr)
qed

lemma hasVoted_apply_tx:
  "reachable s \<Longrightarrow> hasVoted (voters s v) \<Longrightarrow> hasVoted (voters (apply_tx tx s) v)"
  by (cases tx) (auto simp: apply_tx_def split: sum.splits dest: hasVoted_exec)

lemma rises_trace_Cons:
  "rises (b # map f (trace txs s1)) = (if \<not> b \<and> f s1 then 1 else 0) + rises (map f (trace txs s1))"
  by (cases txs) simp_all

lemma rises_voted:
  "reachable s \<Longrightarrow> hasVoted (voters s v) \<Longrightarrow> rises (map (hasVoted_of v) (trace txs s)) = 0"
proof (induction txs arbitrary: s)
  case Nil
  then show ?case by simp
next
  case (Cons tx txs)
  from Cons.prems have "reachable (apply_tx tx s)" "hasVoted (voters (apply_tx tx s) v)"
    by (simp_all add: reachable_apply_tx hasVoted_apply_tx)
  note Cons.IH [OF this]
  moreover from Cons.prems(2) have "hasVoted_of v s"
    by (simp add: hasVoted_of_def)
  ultimately show ?case
    by (simp add: rises_trace_Cons)
qed

lemma rises_le_1:
  "reachable s \<Longrightarrow> rises (map (hasVoted_of v) (trace txs s)) \<le> 1"
proof (induction txs arbitrary: s)
  case Nil
  then show ?case by simp
next
  case (Cons tx txs)
  let ?s1 = "apply_tx tx s"
  have r1: "reachable ?s1" using Cons.prems by (rule reachable_apply_tx)
  show ?case
  proof (cases "hasVoted (voters ?s1 v)")
    case True
    from rises_voted [OF r1 True] show ?thesis
      by (simp add: rises_trace_Cons)
  next
    case False
    then have "\<not> hasVoted_of v ?s1" by (simp add: hasVoted_of_def)
    with Cons.IH [OF r1] show ?thesis
      by (simp add: rises_trace_Cons)
  qed
qed

lemma vote_again:
  assumes "reachable s" "hasVoted (voters s (msg_sender m))"
  shows "vote m c s =
     Inl (Error (if \<not> electionStarted s then ''Election has not started yet''
                 else if electionEnded s then ''Election has already ended''
                 else if \<not> (startTime s \<le> block_timestamp m \<and> block_timestamp m \<le> endTime s)
                   then ''Election is not active''
                 else ''You have already voted''))"
  using assms voted_registered [OF assms]
  by (simp add: vote_def electionActive_def)

subsection \<open>Flags and phases\<close>

lemma exec_flags:
  assumes "exec m op s = Inr s'"
  shows "electionStarted s \<longrightarrow> electionStarted s'"
    and "electionEnded s \<longrightarrow> electionEnded s'"
    and "phase_of s' = phase_of s \<or> (phase_of s = Created \<and> phase_of s' = Active) \<or>
         (phase_of s = Active \<and> phase_of s' = Ended)"
proof -
  have "(electionStarted s \<longrightarrow> electionStarted s') \<and> (electionEnded s \<longrightarrow> electionEnded s') \<and>
        (phase_of s' = phase_of s \<or> (phase_of s = Created \<and> phase_of s' = Active) \<or>
         (phase_of s = Active \<and> phase_of s' = Ended))"
  proof (cases op)
    case (CastVote c)
    with assms have v: "vote m c s = Inr s'" by simp
    from vote_Inr(10) [OF v] show ?thesis by (simp add: phase_of_def)
  qed (use assms in \<open>auto dest!: addCandidate_Inr registerVoter_Inr startElection_Inr
         endElection_Inr simp: phase_of_def\<close>)
  then show "electionStarted s \<longrightarrow> electionStarted s'"
    and "electionEnded s \<longrightarrow> electionEnded s'"
    and "phase_of s' = phase_of s \<or> (phase_of s = Created \<and> phase_of s' = Active) \<or>
         (phase_of s = Active \<and> phase_of s' = Ended)"
    by simp_all
qed

lemma apply_tx_flags:
  "(electionStarted s \<longrightarrow> electionStarted (apply_tx tx s)) \<and>
   (electionEnded s \<longrightarrow> electionEnded (apply_tx tx s))"
  using exec_flags(1,2) [of "fst tx" "snd tx" s]
  by (auto simp: apply_tx_def split: sum.splits)

lemma run_flags:
  "(electionStarted s \<longrightarrow> electionStarted (run txs s)) \<and>
   (electionEnded s \<longrightarrow> electionEnded (run txs s))"
proof (induction txs arbitrary: s)
  case Nil
  show ?case by simp
next
  case (Cons tx txs)
  from Cons.IH [of "apply_tx tx s"] apply_tx_flags [of s tx] show ?case by auto
qed

lemma startElection_not_Created:
  assumes "reachable s" "phase_of s \<noteq> Created"
  shows "startElection m d s =
           Inl (Error (if msg_sender m = admin s then ''Election has already started''
                       else ''Only admin can perform this action''))"
proof -
  from assms ended_started [OF assms(1)] have "electionStarted s"
    by (auto simp: phase_of_def split: if_splits)
  then show ?thesis by (simp add: startElection_def onlyAdmin_def)
qed

lemma endElection_not_Active:
  assumes "phase_of s \<noteq> Active"
  shows "endElection m s =
           Inl (Error (if msg_sender m \<noteq> admin s then ''Only admin can perform this action''
                       else if \<not> electionStarted s then ''Election has not started yet''
                       else ''Election has already ended''))"
  using assms by (auto simp: endElection_def onlyAdmin_def electionActive_def phase_of_def)

subsection \<open>Registration is never undone\<close>

lemma isRegistered_exec:
  assumes "isRegistered (voters s a)" "exec m op s = Inr s'"
  shows "isRegistered (voters s' a)"
proof (cases op)
  case (CastVote c)
  with assms(2) have v: "vote m c s = Inr s'" by simp
  from vote_Inr(10) [OF v] assms(1) show ?thesis by auto
qed (use assms in \<open>auto dest!: addCandidate_Inr registerVoter_Inr startElection_Inr
       endElection_Inr\<close>)

lemma isRegistered_run:
  "isRegistered (voters s a) \<Longrightarrow> isRegistered (voters (run txs s) a)"
proof (induction txs arbitrary: s)
  case Nil
  then show ?case by simp
next
  case (Cons tx txs)
  from Cons.prems have "isRegistered (voters (apply_tx tx s) a)"
    by (auto simp: apply_tx_def split: sum.splits dest: isRegistered_exec)
  then show ?case by (simp add: Cons.IH)
qed

subsection \<open>The handlers' guard, and calls the contract accepts\<close>

lemma adminAuth_cases:
  "adminAuth cfg apiKey = None \<or>
   adminAuth cfg apiKey = Some (401, ErrorBody ''Unauthorized: Admin access required'')"
  by (simp add: adminAuth_def)

lemma startElection_zero:
  assumes "msg_sender m = admin s" "phase_of s = Created" "candidates s \<noteq> []"
  shows "startElection m 0 s =
           Inr (s\<lparr>electionStarted := True, startTime := block_timestamp m,
                  endTime := block_timestamp m\<rparr>)"
proof -
  from assms(2) have "\<not> electionStarted s" by (simp add: phase_of_def split: if_splits)
  moreover have "unat (block_timestamp m) < 2 ^ 256"
    using unsigned_less [of "block_timestamp m"] by simp
  ultimately show ?thesis
    using assms(1,3) by (simp add: startElection_def onlyAdmin_def checked_mul_def checked_add_def)
qed

lemma addCandidate_Created:
  assumes "msg_sender m = admin s" "phase_of s = Created"
  shows "addCandidate m n p q s =
           Inr (s\<lparr>candidates := candidates s @
                  [\<lparr>id_c = of_nat (length (candidates s)), name = n, party = p,
                    proposal = q, voteCount = 0\<rparr>]\<rparr>)"
proof -
  from assms(2) have "\<not> electionStarted s" by (simp add: phase_of_def split: if_splits)
  with assms(1) show ?thesis by (simp add: addCandidate_def onlyAdmin_def)
qed

section \<open>The claims of the specification\<close>

subsection \<open>Single vote\<close>

text \<open>
  C1, as amended. Along every sequence of transactions from deployment, the flag
  \<open>hasVoted(v)\<close> of a voter goes from false to true at most once. Once it is true
  in a reachable state, every \<open>vote\<close> sent by \<open>v\<close> reverts and leaves the whole
  contract state unchanged. The revert reason is \<open>You have already voted\<close> exactly
  when the election is active at the time of the call (started, not ended, block time
  within the window); otherwise the \<open>electionActive\<close> modifier, which runs first,
  reverts with its own reason.
\<close>
theorem single_vote:
  "rises (map (hasVoted_of v) (trace txs (constructor m0 n))) \<le> 1 \<and>
   (reachable s \<and> hasVoted (voters s v) \<and> msg_sender m = v \<longrightarrow>
      vote m c s =
        Inl (Error (if phase_of s = Active \<and> startTime s \<le> block_timestamp m \<and>
                       block_timestamp m \<le> endTime s
                    then ''You have already voted''
                    else if phase_of s = Created then ''Election has not started yet''
                    else if phase_of s = Ended then ''Election has already ended''
                    else ''Election is not active'')) \<and>
      apply_tx (m, CastVote c) s = s)"
proof (intro conjI impI)
  show "rises (map (hasVoted_of v) (trace txs (constructor m0 n))) \<le> 1"
    by (rule rises_le_1 [OF reachable.init])
next
  assume a: "reachable s \<and> hasVoted (voters s v) \<and> msg_sender m = v"
  then have r: "reachable s" and h: "hasVoted (voters s (msg_sender m))" by simp_all
  from ended_started [OF r] vote_again [OF r h]
  show v: "vote m c s =
        Inl (Error (if phase_of s = Active \<and> startTime s \<le> block_timestamp m \<and>
                       block_timestamp m \<le> endTime s
                    then ''You have already voted''
                    else if phase_of s = Created then ''Election has not started yet''
                    else if phase_of s = Ended then ''Election has already ended''
                    else ''Election is not active''))"
    by (auto simp: phase_of_def)
  then show "apply_tx (m, CastVote c) s = s"
    by (simp add: apply_tx_def)
qed

text \<open>The sample election: account 2 has voted and votes again while the election is
  active; along the transactions its flag rises once.\<close>

theorem single_vote_witness:
  "reachable demo_active \<and> hasVoted (voters demo_active 2) \<and> msg_sender demo_voter = 2 \<and>
   vote demo_voter 1 demo_active = Inl (Error ''You have already voted'') \<and>
   apply_tx (demo_voter, CastVote 1) demo_active = demo_active \<and>
   rises (map (hasVoted_of 2)
     (trace [(demo_admin, AddCandidate ''A'' ''PA'' ''pa''), (demo_admin, RegisterVoter 2),
             (demo_admin, StartElection 60), (demo_voter, CastVote 0), (demo_voter, CastVote 0)]
        (constructor demo_admin ''Demo''))) \<le> 1"
proof -
  have "hasVoted (voters demo_active 2) \<and> msg_sender demo_voter = 2"
    by (simp add: demo_active_eq demo_voter_def)
  with reachable_demo_active
  have h: "reachable demo_active \<and> hasVoted (voters demo_active 2) \<and> msg_sender demo_voter = 2"
    by simp
  have p: "phase_of demo_active = Active \<and> startTime demo_active \<le> block_timestamp demo_voter \<and>
           block_timestamp demo_voter \<le> endTime demo_active"
    by (simp add: demo_active_eq demo_voter_def phase_of_def)
  from h p single_vote [of 2 "[(demo_admin, AddCandidate ''A'' ''PA'' ''pa''), (demo_admin, RegisterVoter 2),
             (demo_admin, StartElection 60), (demo_voter, CastVote 0), (demo_voter, CastVote 0)]"
             demo_admin "''Demo''" demo_active demo_voter 1]
  show ?thesis by simp
qed

text \<open>C1 as stated fails: after the administrator has ended the sample election,
  a second vote of account 2 reverts with \<open>Election has already ended\<close>, not with
  \<open>You have already voted\<close>.\<close>

theorem single_vote_counterexample:
  "reachable demo_ended \<and> hasVoted (voters demo_ended 2) \<and> msg_sender demo_voter = 2 \<and>
   vote demo_voter 0 demo_ended = Inl (Error ''Election has already ended'') \<and>
   vote demo_voter 0 demo_ended \<noteq> Inl (Error ''You have already voted'')"
proof -
  have "hasVoted (voters demo_ended 2) \<and> msg_sender demo_voter = 2 \<and>
     vote demo_voter 0 demo_ended = Inl (Error ''Election has already ended'') \<and>
     vote demo_voter 0 demo_ended \<noteq> Inl (Error ''You have already voted'')"
    by (simp add: demo_ended_eq demo_active_eq demo_voter_def vote_def electionActive_def)
  with reachable_demo_ended show ?thesis by simp
qed

subsection \<open>Tally consistency\<close>

text \<open>
  C2. In every state reachable from deployment by any sequence of transactions,
  \<open>totalVotes\<close> equals the sum of \<open>voteCount\<close> over all candidates, and it equals
  the number of accounts whose voter record has \<open>hasVoted = true\<close>. Both are
  equalities of natural numbers: no counter has wrapped around.
\<close>

theorem tally_consistency:
  "reachable s \<Longrightarrow>
     unat (totalVotes s) = sum_list (map (\<lambda>c. unat (voteCount c)) (candidates s)) \<and>
     unat (totalVotes s) = card {a. hasVoted (voters s a)}"
  using tally_ok [of s] voted_ok [of s] by (simp add: tally_def voted_def)

text \<open>
  The sample election after the vote of account 2: one vote in total, one vote for
  candidate A, one account that has voted.
\<close>

theorem tally_consistency_witness:
  "reachable demo_active \<and> unat (totalVotes demo_active) = 1 \<and>
   sum_list (map (\<lambda>c. unat (voteCount c)) (candidates demo_active)) = 1 \<and>
   card {a. hasVoted (voters demo_active a)} = 1"
proof -
  have "unat (totalVotes demo_active) = 1" by (simp add: demo_active_eq)
  with reachable_demo_active tally_consistency [OF reachable_demo_active]
  show ?thesis by simp
qed

subsection \<open>Phase monotonicity\<close>

text \<open>
  C3. A successful transaction never resets \<open>electionStarted\<close> or
  \<open>electionEnded\<close> and either keeps the phase or moves it one step along
  \<open>Created\<close>, \<open>Active\<close>, \<open>Ended\<close>; hence no sequence of transactions takes a
  flag from true back to false. In a reachable state whose phase is not
  \<open>Created\<close>, \<open>startElection\<close> reverts (\<open>Election has already started\<close> for the
  administrator); in a state whose phase is not \<open>Active\<close>, \<open>endElection\<close> reverts
  (for the administrator with the reason of the \<open>electionActive\<close> modifier).
\<close>

theorem phase_monotone:
  "(exec m op s = Inr s' \<longrightarrow>
      (electionStarted s \<longrightarrow> electionStarted s') \<and> (electionEnded s \<longrightarrow> electionEnded s') \<and>
      (phase_of s' = phase_of s \<or> (phase_of s = Created \<and> phase_of s' = Active) \<or>
       (phase_of s = Active \<and> phase_of s' = Ended))) \<and>
   (electionStarted s \<longrightarrow> electionStarted (run txs s)) \<and>
   (electionEnded s \<longrightarrow> electionEnded (run txs s)) \<and>
   (reachable s \<and> phase_of s \<noteq> Created \<longrightarrow>
      startElection m d s =
        Inl (Error (if msg_sender m = admin s then ''Election has already started''
                    else ''Only admin can perform this action''))) \<and>
   (phase_of s \<noteq> Active \<longrightarrow>
      endElection m s =
        Inl (Error (if msg_sender m \<noteq> admin s then ''Only admin can perform this action''
                    else if \<not> electionStarted s then ''Election has not started yet''
                    else ''Election has already ended'')))"
  using exec_flags [of m op s s'] run_flags [of s txs] startElection_not_Created [of s m d]
    endElection_not_Active [of s m]
  by blast

text \<open>
  The sample election: ending moves \<open>Active\<close> to \<open>Ended\<close>; starting again
  while active and ending again when ended both revert.
\<close>

theorem phase_monotone_witness:
  "exec (demo_admin\<lparr>block_timestamp := 1020\<rparr>) EndElection demo_active = Inr demo_ended \<and>
   phase_of demo_active = Active \<and> phase_of demo_ended = Ended \<and>
   electionStarted demo_active \<and> electionStarted demo_ended \<and>
   electionStarted (run [(demo_admin, EndElection)] demo_active) \<and>
   reachable demo_active \<and> phase_of demo_active \<noteq> Created \<and>
   startElection demo_admin 5 demo_active = Inl (Error ''Election has already started'') \<and>
   phase_of demo_ended \<noteq> Active \<and>
   endElection demo_admin demo_ended = Inl (Error ''Election has already ended'')"
proof -
  have e: "exec (demo_admin\<lparr>block_timestamp := 1020\<rparr>) EndElection demo_active = Inr demo_ended"
    by (simp add: demo_ended_eq demo_active_eq demo_defs)
  have p: "phase_of demo_active = Active" "phase_of demo_ended = Ended"
    "electionStarted demo_active" "msg_sender demo_admin = admin demo_active"
    "msg_sender demo_admin = admin demo_ended" "electionStarted demo_ended"
    by (simp_all add: demo_ended_eq demo_active_eq phase_of_def demo_admin_def)
  from e p reachable_demo_active
    phase_monotone [of "demo_admin\<lparr>block_timestamp := 1020\<rparr>" EndElection demo_active demo_ended
      "[(demo_admin, EndElection)]" 5]
    phase_monotone [of demo_admin EndElection demo_active demo_ended "[]" 5]
    phase_monotone [of demo_admin EndElection demo_ended demo_ended "[]" 5]
  show ?thesis by simp
qed

subsection \<open>Result gating\<close>

text \<open>
  C4. \<open>getResults()\<close> reverts with \<open>Election has not ended yet\<close> in every state
  whose phase is not \<open>Ended\<close>, and in every state whose phase is \<open>Ended\<close> it
  returns the ids, the names and the vote counts of all candidates, in the order of
  the candidate array.
\<close>

theorem getResults_gated:
  "(phase_of s \<noteq> Ended \<longrightarrow> getResults s = Inl (Error ''Election has not ended yet'')) \<and>
   (phase_of s = Ended \<longrightarrow>
      getResults s =
        Inr (map id_c (candidates s), map name (candidates s), map voteCount (candidates s)))"
  by (simp add: getResults_eq phase_of_def)

text \<open>
  The sample election before the start, while active and after the end.
\<close>

theorem getResults_gated_witness:
  "phase_of demo_created \<noteq> Ended \<and>
   getResults demo_created = Inl (Error ''Election has not ended yet'') \<and>
   phase_of demo_active \<noteq> Ended \<and>
   getResults demo_active = Inl (Error ''Election has not ended yet'') \<and>
   phase_of demo_ended = Ended \<and>
   getResults demo_ended = Inr ([0, 1], [''A'', ''B''], [1, 0])"
proof -
  have p: "phase_of demo_created \<noteq> Ended" "phase_of demo_active \<noteq> Ended"
    "phase_of demo_ended = Ended"
    by (simp_all add: demo_created_eq demo_active_eq demo_ended_eq phase_of_def)
  have c: "candidates demo_ended = 
     [\<lparr>id_c = 0, name = ''A'', party = ''PA'', proposal = ''pa'', voteCount = 1\<rparr>,
      \<lparr>id_c = 1, name = ''B'', party = ''PB'', proposal = ''pb'', voteCount = 0\<rparr>]"
    by (simp add: demo_ended_eq demo_active_eq)
  from p getResults_gated [of demo_created] getResults_gated [of demo_active]
    getResults_gated [of demo_ended]
  show ?thesis by (simp add: c)
qed

subsection \<open>Ending the election\<close>

text \<open>
  C5. \<open>endElection\<close> succeeds exactly when the caller is the administrator, the
  phase is \<open>Active\<close> and the block time lies within \<open>[startTime, endTime]\<close>. In
  particular a call after the window has elapsed, in phase \<open>Active\<close>, reverts: with
  \<open>Election is not active\<close> when the administrator sends it (\<open>onlyAdmin\<close> runs
  first for anyone else), and the phase remains \<open>Active\<close>.
\<close>

theorem endElection_guard:
  "((\<exists>s'. endElection m s = Inr s') \<longleftrightarrow>
      msg_sender m = admin s \<and> phase_of s = Active \<and>
      startTime s \<le> block_timestamp m \<and> block_timestamp m \<le> endTime s) \<and>
   (phase_of s = Active \<and> endTime s < block_timestamp m \<longrightarrow>
      endElection m s =
        Inl (Error (if msg_sender m = admin s then ''Election is not active''
                    else ''Only admin can perform this action'')) \<and>
      phase_of (apply_tx (m, EndElection) s) = Active)"
  by (auto simp: endElection_def onlyAdmin_def electionActive_def phase_of_def apply_tx_def
      split: if_splits)

text \<open>
  The sample election runs from 1000 to 4600: the administrator cannot end it at 4601,
  and can at 4600.
\<close>

theorem endElection_guard_witness:
  "phase_of demo_active = Active \<and>
   endTime demo_active < block_timestamp (demo_admin\<lparr>block_timestamp := 4601\<rparr>) \<and>
   endElection (demo_admin\<lparr>block_timestamp := 4601\<rparr>) demo_active =
     Inl (Error ''Election is not active'') \<and>
   phase_of (apply_tx (demo_admin\<lparr>block_timestamp := 4601\<rparr>, EndElection) demo_active) = Active \<and>
   endElection (demo_admin\<lparr>block_timestamp := 4600\<rparr>) demo_active = Inr demo_ended"
proof -
  have p: "phase_of demo_active = Active"
    "endTime demo_active < block_timestamp (demo_admin\<lparr>block_timestamp := 4601\<rparr>)"
    "msg_sender (demo_admin\<lparr>block_timestamp := 4601\<rparr>) = admin demo_active"
    by (simp_all add: demo_active_eq phase_of_def demo_admin_def)
  have e: "endElection (demo_admin\<lparr>block_timestamp := 4600\<rparr>) demo_active = Inr demo_ended"
    by (simp add: demo_ended_eq demo_active_eq demo_defs)
  from p e endElection_guard [of "demo_admin\<lparr>block_timestamp := 4601\<rparr>" demo_active]
  show ?thesis by simp
qed

subsection \<open>The duration of the election\<close>

text \<open>
  C6, as amended. The precondition \<open>durationMinutes \<ge> 1\<close> is a rule of the HTTP
  handler \<open>POST /api/election/start\<close>, not of the contract: a request with
  \<open>durationInMinutes < 1\<close> is answered with status 400 and the validation message
  \<open>Duration must be a positive integer\<close> (401 without the administrator's API
  key), sends no transaction and leaves the contract state, hence the phase,
  unchanged. The contract's \<open>startElection\<close> has no check of the duration: called
  by the administrator in phase \<open>Created\<close> with at least one candidate and duration
  0, it succeeds and sets \<open>startTime = endTime = block.timestamp\<close>.
\<close>

theorem startElection_duration:
  "(durationInMinutes < 1 \<longrightarrow>
      post_election_start cfg apiKey durationInMinutes now s =
        (if adminAuth cfg apiKey = None
         then (400, ValidationErrors [''Duration must be a positive integer''])
         else (401, ErrorBody ''Unauthorized: Admin access required''), s)) \<and>
   (msg_sender m = admin s \<and> phase_of s = Created \<and> candidates s \<noteq> [] \<longrightarrow>
      startElection m 0 s =
        Inr (s\<lparr>electionStarted := True, startTime := block_timestamp m,
               endTime := block_timestamp m\<rparr>))"
  using adminAuth_cases [of cfg apiKey] startElection_zero [of m s]
  by (auto simp: post_election_start_def)

text \<open>
  The handler on the sample election before its start, for durations 0 and -5 and for
  a request without API key; and the contract called directly with duration 0.
\<close>

theorem startElection_duration_witness:
  "(0::int) < 1 \<and> adminAuth demo_config (Some ''secret'') = None \<and>
   post_election_start demo_config (Some ''secret'') 0 1000 demo_created =
     ((400, ValidationErrors [''Duration must be a positive integer'']), demo_created) \<and>
   post_election_start demo_config (Some ''secret'') (- 5) 1000 demo_created =
     ((400, ValidationErrors [''Duration must be a positive integer'']), demo_created) \<and>
   post_election_start demo_config None 0 1000 demo_created =
     ((401, ErrorBody ''Unauthorized: Admin access required''), demo_created) \<and>
   msg_sender demo_admin = admin demo_created \<and> phase_of demo_created = Created \<and>
   candidates demo_created \<noteq> [] \<and>
   startElection demo_admin 0 demo_created =
     Inr (demo_created\<lparr>electionStarted := True, startTime := block_timestamp demo_admin,
            endTime := block_timestamp demo_admin\<rparr>)"
proof -
  have a: "adminAuth demo_config (Some ''secret'') = None" "adminAuth demo_config None \<noteq> None"
    by (simp_all add: adminAuth_def demo_config_def)
  have p: "msg_sender demo_admin = admin demo_created" "phase_of demo_created = Created"
    "candidates demo_created \<noteq> []"
    by (simp_all add: demo_created_eq phase_of_def demo_admin_def)
  from a p startElection_duration [of 0 demo_config "Some ''secret''" 1000 demo_created]
    startElection_duration [of "- 5" demo_config "Some ''secret''" 1000 demo_created]
    startElection_duration [of 0 demo_config None 1000 demo_created demo_admin]
  show ?thesis by simp
qed

text \<open>
  C6 as stated fails on the contract: in the sample election, in phase \<open>Created\<close>
  with two candidates, the administrator's \<open>startElection(0)\<close> is accepted and the
  phase becomes \<open>Active\<close>.
\<close>

theorem startElection_duration_counterexample:
  "msg_sender demo_admin = admin demo_created \<and> phase_of demo_created = Created \<and>
   length (candidates demo_created) = 2 \<and>
   startElection demo_admin 0 demo_created =
     Inr (demo_created\<lparr>electionStarted := True, startTime := 1000, endTime := 1000\<rparr>) \<and>
   phase_of (apply_tx (demo_admin, StartElection 0) demo_created) = Active"
  by (simp add: demo_created_eq demo_defs phase_of_def)

subsection \<open>The fields of a candidate\<close>

text \<open>
  C7, as amended. That name, party and proposal are non-empty is a rule of the HTTP
  handler \<open>POST /api/candidates\<close>, not of the contract: a request in which one of
  the three is empty is answered with status 400 (401 without the administrator's API
  key), sends no transaction and leaves the contract state, hence the candidate list,
  unchanged. The contract's \<open>addCandidate\<close> has no check of its arguments: called by
  the administrator in phase \<open>Created\<close> it appends the candidate whatever the three
  strings are.
\<close>

theorem addCandidate_nonempty:
  "(name' = [] \<or> party' = [] \<or> proposal' = [] \<longrightarrow>
      snd (post_candidates cfg apiKey name' party' proposal' now s) = s \<and>
      fst (fst (post_candidates cfg apiKey name' party' proposal' now s)) =
        (if adminAuth cfg apiKey = None then 400 else 401)) \<and>
   (msg_sender m = admin s \<and> phase_of s = Created \<longrightarrow>
      addCandidate m name' party' proposal' s =
        Inr (s\<lparr>candidates := candidates s @
               [\<lparr>id_c = of_nat (length (candidates s)), name = name', party = party',
                 proposal = proposal', voteCount = 0\<rparr>]\<rparr>))"
  using adminAuth_cases [of cfg apiKey] addCandidate_Created [of m s name' party' proposal']
  by (auto simp: post_candidates_def Let_def)

text \<open>
  The handler on the sample election with an empty party, and the contract called
  directly with the same arguments.
\<close>

theorem addCandidate_nonempty_witness:
  "adminAuth demo_config (Some ''secret'') = None \<and>
   post_candidates demo_config (Some ''secret'') ''C'' [] ''pc'' 1000 demo_created =
     ((400, ValidationErrors [''Party name is required'']), demo_created) \<and>
   snd (post_candidates demo_config (Some ''secret'') ''C'' [] ''pc'' 1000 demo_created) =
     demo_created \<and>
   fst (fst (post_candidates demo_config (Some ''secret'') ''C'' [] ''pc'' 1000 demo_created)) = 400 \<and>
   candidates (snd (post_candidates demo_config (Some ''secret'') ''C'' [] ''pc'' 1000 demo_created))
     = candidates demo_created \<and>
   msg_sender demo_admin = admin demo_created \<and> phase_of demo_created = Created \<and>
   addCandidate demo_admin ''C'' [] ''pc'' demo_created =
     Inr (demo_created\<lparr>candidates := candidates demo_created @
            [\<lparr>id_c = of_nat (length (candidates demo_created)), name = ''C'', party = [],
              proposal = ''pc'', voteCount = 0\<rparr>]\<rparr>)"
proof -
  have a: "adminAuth demo_config (Some ''secret'') = None"
    by (simp add: adminAuth_def demo_config_def)
  have b: "post_candidates demo_config (Some ''secret'') ''C'' [] ''pc'' 1000 demo_created =
     ((400, ValidationErrors [''Party name is required'']), demo_created)"
    by (simp add: post_candidates_def a)
  have p: "msg_sender demo_admin = admin demo_created" "phase_of demo_created = Created"
    by (simp_all add: demo_created_eq phase_of_def demo_admin_def)
  from a b p
    addCandidate_nonempty [of "''C''" "[]" "''pc''" demo_config "Some ''secret''" 1000
      demo_created demo_admin]
  show ?thesis by simp
qed

text \<open>
  C7 as stated fails on the contract: on the freshly deployed contract the
  administrator's \<open>addCandidate("", "", "")\<close> appends a candidate.
\<close>

theorem addCandidate_nonempty_counterexample:
  "msg_sender demo_admin = admin demo_new \<and> phase_of demo_new = Created \<and>
   candidates demo_new = [] \<and>
   addCandidate demo_admin [] [] [] demo_new =
     Inr (demo_new\<lparr>candidates :=
            [\<lparr>id_c = 0, name = [], party = [], proposal = [], voteCount = 0\<rparr>]\<rparr>) \<and>
   length (candidates (apply_tx (demo_admin, AddCandidate [] [] []) demo_new)) = 1"
  by (simp add: demo_defs phase_of_def)

subsection \<open>Registration in every phase\<close>

text \<open>
  C8. Whatever the phase, \<open>registerVoter\<close> succeeds whenever the caller is the
  administrator and the account's record does not have \<open>isRegistered = true\<close>, and
  then the record has \<open>isRegistered = true\<close> and \<open>hasVoted = false\<close>. When it
  reverts, either the caller is not the administrator (\<open>Only admin can perform this
  action\<close>) or the account is registered already (\<open>Voter is already
  registered\<close>).
\<close>

theorem registerVoter_any_phase:
  "(msg_sender m = admin s \<and> \<not> isRegistered (voters s a) \<longrightarrow>
      (\<exists>s'. registerVoter m a s = Inr s' \<and> isRegistered (voters s' a) \<and>
            \<not> hasVoted (voters s' a))) \<and>
   (\<forall>e. registerVoter m a s = Inl e \<longrightarrow>
      (msg_sender m \<noteq> admin s \<and> e = Error ''Only admin can perform this action'') \<or>
      (msg_sender m = admin s \<and> isRegistered (voters s a) \<and>
       e = Error ''Voter is already registered''))"
  by (simp add: registerVoter_cases)

text \<open>
  Account 3 is registered by the administrator in the sample election before the
  start, while active, and after the end.
\<close>

theorem registerVoter_any_phase_witness:
  "phase_of demo_created = Created \<and> msg_sender demo_admin = admin demo_created \<and>
   \<not> isRegistered (voters demo_created 3) \<and>
   isRegistered (voters (apply_tx (demo_admin, RegisterVoter 3) demo_created) 3) \<and>
   \<not> hasVoted (voters (apply_tx (demo_admin, RegisterVoter 3) demo_created) 3) \<and>
   phase_of demo_active = Active \<and> msg_sender demo_admin = admin demo_active \<and>
   \<not> isRegistered (voters demo_active 3) \<and>
   isRegistered (voters (apply_tx (demo_admin, RegisterVoter 3) demo_active) 3) \<and>
   \<not> hasVoted (voters (apply_tx (demo_admin, RegisterVoter 3) demo_active) 3) \<and>
   phase_of demo_ended = Ended \<and> msg_sender demo_admin = admin demo_ended \<and>
   \<not> isRegistered (voters demo_ended 3) \<and>
   isRegistered (voters (apply_tx (demo_admin, RegisterVoter 3) demo_ended) 3) \<and>
   \<not> hasVoted (voters (apply_tx (demo_admin, RegisterVoter 3) demo_ended) 3)"
proof -
  have p: "phase_of demo_created = Created" "msg_sender demo_admin = admin demo_created"
    "\<not> isRegistered (voters demo_created 3)"
    "phase_of demo_active = Active" "msg_sender demo_admin = admin demo_active"
    "\<not> isRegistered (voters demo_active 3)"
    "phase_of demo_ended = Ended" "msg_sender demo_admin = admin demo_ended"
    "\<not> isRegistered (voters demo_ended 3)"
    by (simp_all add: demo_created_eq demo_active_eq demo_ended_eq phase_of_def demo_admin_def
          zero_Voter_def)
  from p registerVoter_any_phase [of demo_admin demo_created 3]
    registerVoter_any_phase [of demo_admin demo_active 3]
    registerVoter_any_phase [of demo_admin demo_ended 3]
  show ?thesis by (auto simp: apply_tx_def)
qed

subsection \<open>The status of an unregistered account\<close>

text \<open>
  C10. For a well-formed address the voter-status query answers with status 200, and
  \<open>votedFor\<close> is \<open>null\<close> exactly when \<open>hasVoted\<close> is false. For an account that
  is not registered in a reachable state (registration is never undone, so this is an
  account that was never registered) the answer is \<open>isRegistered = false\<close>,
  \<open>hasVoted = false\<close>, \<open>votedFor = null\<close>.
\<close>

theorem voter_status_unregistered:
  "(reachable s \<and> \<not> isRegistered (voters s a) \<longrightarrow>
      get_voter_status (Some a) s = (200, VoterStatusBody a False False None)) \<and>
   (\<exists>r h vf. get_voter_status (Some a) s = (200, VoterStatusBody a r h vf) \<and>
      (vf = None \<longleftrightarrow> \<not> h))"
  using voted_registered [of s a]
  by (auto simp: get_voter_status_def hasVoted_of_def Let_def)

text \<open>
  In the sample election account 3 was never registered; account 2 has voted for
  candidate 0.
\<close>

theorem voter_status_unregistered_witness:
  "reachable demo_active \<and> \<not> isRegistered (voters demo_active 3) \<and>
   get_voter_status (Some 3) demo_active = (200, VoterStatusBody 3 False False None) \<and>
   get_voter_status (Some 2) demo_active = (200, VoterStatusBody 2 True True (Some 0))"
proof -
  have "\<not> isRegistered (voters demo_active 3)"
    "get_voter_status (Some 2) demo_active = (200, VoterStatusBody 2 True True (Some 0))"
    by (simp_all add: demo_active_eq zero_Voter_def get_voter_status_def hasVoted_of_def)
  with reachable_demo_active voter_status_unregistered [of demo_active 3]
  show ?thesis by simp
qed

end
